theory Spec2Isabelle
  imports Complex_Main "HOL-Library.Char_ord" "HOL-Library.List_Lexorder"
    "HOL-Library.Product_Lexorder"
begin

section \<open>Text primitives of the parser\<close>

text \<open>
  A Python \<^verbatim>\<open>str\<close> is modelled as a \<^typ>\<open>string\<close>, reading each \<^typ>\<open>char\<close> as the
  code point of the same number (0 to 255). On such text \<^verbatim>\<open>\d\<close> and \<^verbatim>\<open>[0-9]\<close> accept
  the same ten characters, and the white space of \<^verbatim>\<open>str.strip()\<close> and
  \<^verbatim>\<open>str.split()\<close> is the set below.
\<close>

definition isspace :: "char \<Rightarrow> bool" where
  "isspace c = (of_char c \<in> {9, 10, 11, 12, 13, 28, 29, 30, 31, 32, 133, 160 :: nat})"

definition strip :: "string \<Rightarrow> string" where
  "strip s = rev (dropWhile isspace (rev (dropWhile isspace s)))"

text \<open>
  \<^verbatim>\<open>s.split()\<close>: the maximal runs of characters that are not white space. The first
  argument is the word read so far.
\<close>

fun split_from :: "string \<Rightarrow> string \<Rightarrow> string list" where
  "split_from w [] = (if w = [] then [] else [w])"
| "split_from w (c # cs) =
     (if isspace c then (if w = [] then split_from [] cs else w # split_from [] cs)
      else split_from (w @ [c]) cs)"

definition split_ws :: "string \<Rightarrow> string list" where
  "split_ws s = split_from [] s"

text \<open>\<^verbatim>\<open>text.split('\n')\<close>: always at least one line.\<close>

fun lines_from :: "string \<Rightarrow> string \<Rightarrow> string list" where
  "lines_from l [] = [l]"
| "lines_from l (c # cs) =
     (if c = CHR 0x0A then l # lines_from [] cs else lines_from (l @ [c]) cs)"

definition split_lines :: "string \<Rightarrow> string list" where
  "split_lines s = lines_from [] s"

definition startswith :: "string \<Rightarrow> string \<Rightarrow> bool" where
  "startswith s p = (take (length p) s = p)"

text \<open>\<^verbatim>\<open>sub in s\<close>: some suffix of \<open>s\<close> starts with \<open>sub\<close>.\<close>

fun contains :: "string \<Rightarrow> string \<Rightarrow> bool" where
  "contains sub [] = (sub = [])"
| "contains sub (c # cs) = (startswith (c # cs) sub \<or> contains sub cs)"

text \<open>
  \<^verbatim>\<open>s.split(sep, 1)\<close> for a separator that is not empty: the text before the
  first occurrence of the separator and the text after it, or \<open>s\<close> alone.
\<close>

fun split_once_from :: "string \<Rightarrow> string \<Rightarrow> string \<Rightarrow> string list" where
  "split_once_from sep pre [] = [pre]"
| "split_once_from sep pre (c # cs) =
     (if startswith (c # cs) sep then [pre, drop (length sep) (c # cs)]
      else split_once_from sep (pre @ [c]) cs)"

definition split_once :: "string \<Rightarrow> string \<Rightarrow> string list" where
  "split_once sep s = split_once_from sep [] s"

section \<open>Regular expressions\<close>

text \<open>
  The patterns of the parser are sequences of literal characters, greedy bounded
  repetitions of a character class, one capturing group and the anchor \<^verbatim>\<open>$\<close>. The
  matcher backtracks as Python's \<^verbatim>\<open>re\<close> does: a repetition first takes as many
  characters as it can and gives them back one at a time while the rest of the pattern
  fails.
\<close>

datatype cclass = Digit | Range char char | OneOf string

fun in_class :: "cclass \<Rightarrow> char \<Rightarrow> bool" where
  "in_class Digit c = (CHR ''0'' \<le> c \<and> c \<le> CHR ''9'')"
| "in_class (Range a b) c = (a \<le> c \<and> c \<le> b)"
| "in_class (OneOf cs) c = (c \<in> set cs)"

datatype rx_item =
    Lit char
  | Rep cclass nat "nat option"
  | GroupOpen
  | GroupClose
  | EndAnchor

type_synonym regex = "rx_item list"

text \<open>
  The state of a match attempt: the text still to be read, where the group was opened,
  and the text the group captured.
\<close>

fun first_some :: "('a \<Rightarrow> 'b option) \<Rightarrow> 'a list \<Rightarrow> 'b option" where
  "first_some f [] = None"
| "first_some f (x # xs) = (case f x of Some y \<Rightarrow> Some y | None \<Rightarrow> first_some f xs)"

definition rep_counts :: "cclass \<Rightarrow> nat \<Rightarrow> nat option \<Rightarrow> string \<Rightarrow> nat list" where
  "rep_counts cl lo hi s =
     (let run = length (takeWhile (in_class cl) s);
          most = (case hi of None \<Rightarrow> run | Some h \<Rightarrow> min h run)
      in rev [lo ..< Suc most])"

fun rx_run :: "regex \<Rightarrow> string \<Rightarrow> string \<Rightarrow> string option \<Rightarrow> (string \<times> string option) option" where
  "rx_run [] s g cap = Some (s, cap)"
| "rx_run (Lit c # r) s g cap =
     (case s of [] \<Rightarrow> None | x # xs \<Rightarrow> if x = c then rx_run r xs g cap else None)"
| "rx_run (Rep cl lo hi # r) s g cap =
     first_some (\<lambda>k. rx_run r (drop k s) g cap) (rep_counts cl lo hi s)"
| "rx_run (GroupOpen # r) s g cap = rx_run r s s cap"
| "rx_run (GroupClose # r) s g cap = rx_run r s g (Some (take (length g - length s) g))"
| "rx_run (EndAnchor # r) s g cap =
     (if s = [] \<or> s = [CHR 0x0A] then rx_run r s g cap else None)"

text \<open>\<^verbatim>\<open>re.match(p, s)\<close> tries the pattern at the start of the text only.\<close>

definition re_match :: "regex \<Rightarrow> string \<Rightarrow> bool" where
  "re_match p s = (rx_run p s [] None \<noteq> None)"

text \<open>\<^verbatim>\<open>re.search(p, s)\<close> tries every position from the left, the end included.\<close>

fun re_search :: "regex \<Rightarrow> string \<Rightarrow> bool" where
  "re_search p [] = re_match p []"
| "re_search p (c # cs) = (re_match p (c # cs) \<or> re_search p cs)"

text \<open>
  \<^verbatim>\<open>re.findall(p, s)\<close> for a pattern with one group whose matches are never empty:
  the captures of the leftmost matches that do not overlap. After a match the scan
  resumes where the match ended, otherwise one character further.
\<close>

fun re_findall :: "regex \<Rightarrow> string \<Rightarrow> string list" where
  "re_findall p [] = []"
| "re_findall p (c # cs) =
     (case rx_run p (c # cs) [] None of
        None \<Rightarrow> re_findall p cs
      | Some (rest, cap) \<Rightarrow>
          (case cap of None \<Rightarrow> [] | Some t \<Rightarrow> [t]) @
          re_findall p (if length rest < length (c # cs) then rest else cs))"

section \<open>Floating-point values\<close>

text \<open>
  \<^verbatim>\<open>float(p)\<close> is applied to captured text only, which is a run of decimal digits
  with at most one dot inside; on such text it never raises and returns the IEEE 754
  double nearest to the decimal value, ties going to the even significand. A double is
  modelled by the rational number it denotes.
\<close>

datatype pyfloat = Finite rat | Infinity

function bit_length :: "int \<Rightarrow> int" where
  "bit_length n = (if n \<le> 0 then 0 else 1 + bit_length (n div 2))"
  by pat_completeness auto
termination
  by (relation "measure nat") auto

declare bit_length.simps [simp del]

definition pow2 :: "int \<Rightarrow> rat" where
  "pow2 e = (if 0 \<le> e then of_int (2 ^ nat e) else 1 / of_int (2 ^ nat (- e)))"

text \<open>\<open>a / b\<close> rounded to the nearest integer, a tie to the even one; \<open>b\<close> is positive.\<close>

definition round_half_even_div :: "int \<Rightarrow> int \<Rightarrow> int" where
  "round_half_even_div a b =
     (let q = a div b; r = a mod b
      in if 2 * r < b then q else if b < 2 * r then q + 1 else if even q then q else q + 1)"

text \<open>The exponent \<open>e\<close> with \<open>2 ^ e \<le> n / d < 2 ^ (e + 1)\<close>, for positive \<open>n\<close> and \<open>d\<close>.\<close>

definition binary_exponent :: "int \<Rightarrow> int \<Rightarrow> int" where
  "binary_exponent n d =
     (let e0 = bit_length n - bit_length d
      in if (if 0 \<le> e0 then 2 ^ nat e0 * d \<le> n else d \<le> 2 ^ nat (- e0) * n)
         then e0 else e0 - 1)"

text \<open>\<open>n / d * 2 ^ s\<close> rounded to an integer.\<close>

definition round_scaled :: "int \<Rightarrow> int \<Rightarrow> int \<Rightarrow> int" where
  "round_scaled n d s =
     (if 0 \<le> s then round_half_even_div (n * 2 ^ nat s) d
      else round_half_even_div n (d * 2 ^ nat (- s)))"

text \<open>
  The double nearest to \<open>n / d\<close>: a significand of 53 bits at the exponent of the
  value, which is at least \<open>- 1022\<close> (below it the doubles are subnormal). The result
  is infinite when it reaches \<open>2 ^ 1024\<close>.
\<close>

definition round_to_double :: "int \<Rightarrow> int \<Rightarrow> pyfloat" where
  "round_to_double n d =
     (if n = 0 then Finite 0
      else let e = max (binary_exponent n d) (- 1022);
               m = round_scaled n d (52 - e)
           in if 1023 < e \<or> (e = 1023 \<and> m = 2 ^ 53) then Infinity
              else Finite (of_int m * pow2 (e - 52)))"

definition digits_value :: "string \<Rightarrow> int" where
  "digits_value ds = foldl (\<lambda>a c. 10 * a + (of_char c - 48)) 0 ds"

definition py_float :: "string \<Rightarrow> pyfloat" where
  "py_float p =
     (let whole = takeWhile (\<lambda>c. c \<noteq> CHR ''.'') p;
          frac = drop 1 (dropWhile (\<lambda>c. c \<noteq> CHR ''.'') p)
      in round_to_double (digits_value (whole @ frac)) (10 ^ length frac))"

text \<open>\<^verbatim>\<open>0 <= val <= 100\<close>\<close>

fun in_percent_range :: "pyfloat \<Rightarrow> bool" where
  "in_percent_range (Finite v) = (0 \<le> v \<and> v \<le> 100)"
| "in_percent_range Infinity = False"

section \<open>Category tokens\<close>

text \<open>\<^verbatim>\<open>^[A-Z]{2,}\d*[HOS]?$\<close>\<close>

definition category_rx :: regex where
  "category_rx =
     [Rep (Range CHR ''A'' CHR ''Z'') 2 None, Rep Digit 0 None,
      Rep (OneOf ''HOS'') 0 (Some 1), EndAnchor]"

definition category_fixes :: "(string \<times> string) list" where
  "category_fixes =
     [(''SDEFRSEBC'', ''DEFRSEBCS''),
      (''SEWS'', ''EWS''),
      (''SORPHAN'', ''ORPHAN''),
      (''SDEFRSCS'', ''DEFRSCS''),
      (''SDEFROBCS'', ''DEFROBCS''),
      (''SDEFRNT1S'', ''DEFRNT1S''),
      (''SDEFRNT2S'', ''DEFRNT2S''),
      (''SDEFRNT3S'', ''DEFRNT3S'')]"

definition fix_category_name :: "string \<Rightarrow> string" where
  "fix_category_name word =
     (case map_of category_fixes word of
        Some fixed \<Rightarrow> fixed
      | None \<Rightarrow>
          if startswith word ''S'' \<and> 4 < length word \<and>
             word \<notin> set [''STAGE'', ''STATE'', ''STATUS'']
          then (let potential_fix = drop 1 word
                in if re_match category_rx potential_fix then potential_fix else word)
          else word)"

text \<open>The test that both parsers apply to a corrected word.\<close>

definition is_category :: "string \<Rightarrow> bool" where
  "is_category corrected_word =
     ((re_match category_rx corrected_word \<and> 2 \<le> length corrected_word) \<or>
      corrected_word = ''EWS'')"

definition categories_of :: "string list \<Rightarrow> string list" where
  "categories_of words = filter is_category (map fix_category_name words)"

text \<open>\<^verbatim>\<open>\(\d+\.\d+\)\<close> and \<^verbatim>\<open>\(([0-9]+\.?[0-9]+)\)\<close>\<close>

definition data_rx :: regex where
  "data_rx =
     [Lit CHR ''('', Rep Digit 1 None, Lit CHR ''.'', Rep Digit 1 None, Lit CHR '')'']"

definition percentile_rx :: regex where
  "percentile_rx =
     [Lit CHR ''('', GroupOpen, Rep (Range CHR ''0'' CHR ''9'') 1 None,
      Rep (OneOf ''.'') 0 (Some 1), Rep (Range CHR ''0'' CHR ''9'') 1 None, GroupClose,
      Lit CHR '')'']"

definition percentiles_of :: "string \<Rightarrow> pyfloat list" where
  "percentiles_of line = filter in_percent_range (map py_float (re_findall percentile_rx line))"

section \<open>Records\<close>

record cutoff_record =
  Institute_Code :: string
  Institute_Name :: string
  Course_Code :: string
  Course :: string
  Category :: string
  Percentile :: "pyfloat option"

text \<open>
  The loop that closes both table parsers: one record for each category, with the
  percentile at the same index, or \<^verbatim>\<open>None\<close> when the percentiles have run out.
\<close>

definition create_records ::
  "string \<Rightarrow> string \<Rightarrow> string \<Rightarrow> string \<Rightarrow> string list \<Rightarrow> pyfloat list \<Rightarrow> cutoff_record list"
where
  "create_records institute_code institute_name course_code course_name categories percentiles =
     map (\<lambda>(i, category).
            \<lparr>Institute_Code = institute_code, Institute_Name = institute_name,
             Course_Code = course_code, Course = course_name, Category = category,
             Percentile = (if i < length percentiles then Some (percentiles ! i) else None)\<rparr>)
         (enumerate 0 categories)"

section \<open>The simple table\<close>

text \<open>The conditions of \<^verbatim>\<open>parse_simple_table_course\<close>, each on a stripped line.\<close>

definition is_main_header :: "string \<Rightarrow> bool" where
  "is_main_header line =
     ((contains ''GOPENS'' line \<or> contains ''GOPENH'' line) \<and> 8 \<le> length (split_ws line))"

definition hits_data_line :: "string \<Rightarrow> bool" where
  "hits_data_line next_line =
     (re_search data_rx next_line \<or> startswith next_line ''I '' \<or> length next_line = 0)"

definition hits_structural_element :: "string \<Rightarrow> bool" where
  "hits_structural_element next_line =
     (startswith next_line ''Home'' \<or> startswith next_line ''Other'' \<or>
      startswith next_line ''State'')"

definition ends_data :: "string \<Rightarrow> bool" where
  "ends_data line =
     (line = [] \<or> startswith line ''Home University'' \<or> startswith line ''Other Than'' \<or>
      startswith line ''State'' \<or> contains ''Stage'' line)"

text \<open>
  The inner \<^verbatim>\<open>while\<close> of \<^verbatim>\<open>parse_simple_table_course\<close>: the lines after the main
  header give more categories until a data line or a structural line stops the scan.
  The result is the category list and \<^verbatim>\<open>data_start_idx\<close>, where \<open>None\<close> stands for
  the initial \<^verbatim>\<open>-1\<close>.
\<close>

function additional_categories ::
  "string list \<Rightarrow> nat \<Rightarrow> string list \<Rightarrow> string list \<times> nat option"
where
  "additional_categories course_section j all_categories =
     (if j < length course_section then
        (let next_line = strip (course_section ! j)
         in if hits_data_line next_line then (all_categories, Some j)
            else if hits_structural_element next_line then (all_categories, Some j)
            else (let words = (if split_ws next_line \<noteq> [] then split_ws next_line
                               else [next_line])
                  in additional_categories course_section (j + 1)
                       (all_categories @ categories_of words)))
      else (all_categories, None))"
  by pat_completeness auto
termination
  by (relation "measure (\<lambda>(course_section, j, all_categories). length course_section - j)") auto

declare additional_categories.simps [simp del]

text \<open>The outer \<^verbatim>\<open>for\<close>: the first line that is a main category header.\<close>

function main_header_scan :: "string list \<Rightarrow> nat \<Rightarrow> string list \<times> nat option" where
  "main_header_scan course_section i =
     (if i < length course_section then
        (let line = strip (course_section ! i)
         in if is_main_header line
            then additional_categories course_section (i + 1) (categories_of (split_ws line))
            else main_header_scan course_section (i + 1))
      else ([], None))"
  by pat_completeness auto
termination
  by (relation "measure (\<lambda>(course_section, i). length course_section - i)") auto

declare main_header_scan.simps [simp del]

text \<open>
  The percentile loop, from \<^verbatim>\<open>data_start_idx\<close>: the values of a line are taken
  before the line is tested for the end of the data.
\<close>

function data_percentiles :: "string list \<Rightarrow> nat \<Rightarrow> pyfloat list \<Rightarrow> pyfloat list" where
  "data_percentiles course_section i percentiles =
     (if i < length course_section then
        (let line = strip (course_section ! i);
             percentiles' = percentiles @ percentiles_of line
         in if ends_data line then percentiles'
            else data_percentiles course_section (i + 1) percentiles')
      else percentiles)"
  by pat_completeness auto
termination
  by (relation "measure (\<lambda>(course_section, i, percentiles). length course_section - i)") auto

declare data_percentiles.simps [simp del]

definition simple_percentiles :: "string list \<Rightarrow> nat option \<Rightarrow> pyfloat list" where
  "simple_percentiles course_section data_start_idx =
     (case data_start_idx of None \<Rightarrow> [] | Some d \<Rightarrow> data_percentiles course_section d [])"

definition parse_simple_table_course ::
  "string list \<Rightarrow> string \<Rightarrow> string \<Rightarrow> string \<Rightarrow> string \<Rightarrow> cutoff_record list"
where
  "parse_simple_table_course course_section institute_code institute_name course_code course_name =
     (case main_header_scan course_section 0 of
        (all_categories, data_start_idx) \<Rightarrow>
          if all_categories = [] then []
          else create_records institute_code institute_name course_code course_name
                 all_categories (simple_percentiles course_section data_start_idx))"

section \<open>The multi-section table\<close>

text \<open>The test of the outer loop for a section header.\<close>

definition is_section_header :: "string \<Rightarrow> bool" where
  "is_section_header line =
     (contains ''Home University Seats Allotted to Home University'' line \<or>
      contains ''Home University Seats Allotted to Other Than Home University'' line \<or>
      contains ''Other Than Home University Seats Allotted to Other Than Home University'' line \<or>
      line = ''State Level'')"

text \<open>The stop conditions of the two inner loops.\<close>

definition stops_categories :: "string \<Rightarrow> bool" where
  "stops_categories cat_line =
     (startswith cat_line ''I '' \<or> re_search data_rx cat_line \<or>
      contains ''Home University Seats Allotted'' cat_line \<or>
      cat_line = ''State Level'' \<or>
      contains ''Other Than Home University Seats Allotted'' cat_line \<or>
      contains ''Legends:'' cat_line)"

definition stops_percentiles :: "string \<Rightarrow> bool" where
  "stops_percentiles data_line =
     (contains ''Stage'' data_line \<or>
      contains ''Home University Seats Allotted'' data_line \<or>
      data_line = ''State Level'' \<or>
      contains ''Other Than Home University Seats Allotted'' data_line \<or>
      contains ''Legends:'' data_line)"

text \<open>The first inner loop: categories, up to data or another section.\<close>

function section_categories ::
  "string list \<Rightarrow> nat \<Rightarrow> string list \<Rightarrow> string list \<times> nat"
where
  "section_categories course_section j cats =
     (if j < length course_section then
        (let cat_line = strip (course_section ! j)
         in if stops_categories cat_line then (cats, j)
            else section_categories course_section (j + 1)
                   (if cat_line \<noteq> [] then cats @ categories_of (split_ws cat_line) else cats))
      else (cats, j))"
  by pat_completeness auto
termination
  by (relation "measure (\<lambda>(course_section, j, cats). length course_section - j)") auto

declare section_categories.simps [simp del]

text \<open>The second inner loop: percentiles, up to a stage line or the next section.\<close>

function section_percentiles ::
  "string list \<Rightarrow> nat \<Rightarrow> pyfloat list \<Rightarrow> pyfloat list \<times> nat"
where
  "section_percentiles course_section j percentiles =
     (if j < length course_section then
        (let data_line = strip (course_section ! j);
             percentiles' = percentiles @ percentiles_of data_line
         in if stops_percentiles data_line then (percentiles', j)
            else section_percentiles course_section (j + 1) percentiles')
      else (percentiles, j))"
  by pat_completeness auto
termination
  by (relation "measure (\<lambda>(course_section, j, percentiles). length course_section - j)") auto

declare section_percentiles.simps [simp del]

text \<open>
  The state of the outer loop: the cursor \<open>i\<close>, the records so far and, as a ghost
  variable that the program does not have, the cursor values at which a section was
  opened.
\<close>

record multi_state =
  cursor :: nat
  records :: "cutoff_record list"
  opened :: "nat list"

text \<open>One pass through the body of the outer \<^verbatim>\<open>while\<close>, for a cursor inside the section.\<close>

definition multi_section_step ::
  "string list \<Rightarrow> string \<Rightarrow> string \<Rightarrow> string \<Rightarrow> string \<Rightarrow> multi_state \<Rightarrow> multi_state"
where
  "multi_section_step course_section institute_code institute_name course_code course_name st =
     (let i = cursor st; line = strip (course_section ! i)
      in if is_section_header line then
           (case section_categories course_section (i + 1) [] of
              (cats, j) \<Rightarrow>
                (case section_percentiles course_section j [] of
                   (percentiles, j') \<Rightarrow>
                     \<lparr>cursor = j',
                      records = records st @
                        create_records institute_code institute_name course_code course_name
                          cats percentiles,
                      opened = opened st @ [i]\<rparr>))
         else st\<lparr>cursor := i + 1\<rparr>)"

text \<open>
  The outer \<^verbatim>\<open>while i < len(course_section)\<close>. Nothing in its shape bounds the
  number of passes, so the loop is a partial function: \<open>None\<close> is a run without end.
\<close>

partial_function (option) multi_section_loop ::
  "string list \<Rightarrow> string \<Rightarrow> string \<Rightarrow> string \<Rightarrow> string \<Rightarrow> multi_state \<Rightarrow> multi_state option"
where
  "multi_section_loop course_section institute_code institute_name course_code course_name st =
     (if cursor st < length course_section
      then multi_section_loop course_section institute_code institute_name course_code course_name
             (multi_section_step course_section institute_code institute_name course_code
                course_name st)
      else Some st)"

declare multi_section_loop.simps [code]

definition multi_section_run ::
  "string list \<Rightarrow> string \<Rightarrow> string \<Rightarrow> string \<Rightarrow> string \<Rightarrow> multi_state option"
where
  "multi_section_run course_section institute_code institute_name course_code course_name =
     multi_section_loop course_section institute_code institute_name course_code course_name
       \<lparr>cursor = 0, records = [], opened = []\<rparr>"

definition parse_multi_section_course ::
  "string list \<Rightarrow> string \<Rightarrow> string \<Rightarrow> string \<Rightarrow> string \<Rightarrow> cutoff_record list option"
where
  "parse_multi_section_course course_section institute_code institute_name course_code course_name =
     map_option records
       (multi_section_run course_section institute_code institute_name course_code course_name)"

section \<open>The page\<close>

text \<open>\<^verbatim>\<open>^\d{5} - \<close> and \<^verbatim>\<open>^\d{10} - \<close>, tried by \<^verbatim>\<open>re.match\<close> at the start of a line.\<close>

definition institute_rx :: regex where
  "institute_rx = [Rep Digit 5 (Some 5), Lit CHR '' '', Lit CHR ''-'', Lit CHR '' '']"

definition course_rx :: regex where
  "course_rx = [Rep Digit 10 (Some 10), Lit CHR '' '', Lit CHR ''-'', Lit CHR '' '']"

text \<open>\<^verbatim>\<open>parts = line.split(' - ', 1)\<close>, then \<^verbatim>\<open>parts[0]\<close> and the guarded \<^verbatim>\<open>parts[1]\<close>.\<close>

definition code_and_name :: "string \<Rightarrow> string \<times> string" where
  "code_and_name line =
     (let parts = split_once '' - '' line
      in (hd parts, if 1 < length parts then parts ! 1 else []))"

text \<open>The institute loop stops at the first line that matches.\<close>

fun find_institute :: "string list \<Rightarrow> (string \<times> string) option" where
  "find_institute [] = None"
| "find_institute (l # ls) =
     (let line = strip l
      in if re_match institute_rx line then Some (code_and_name line) else find_institute ls)"

text \<open>
  The course loop: \<^verbatim>\<open>courses\<close> is a list that keeps every header line,
  \<^verbatim>\<open>course_positions\<close> a dictionary from course code to line number, written again
  when a code comes back.
\<close>

fun find_courses ::
  "string list \<Rightarrow> nat \<Rightarrow> (string \<times> string) list \<Rightarrow> (string \<rightharpoonup> nat) \<Rightarrow>
   (string \<times> string) list \<times> (string \<rightharpoonup> nat)"
where
  "find_courses [] i courses course_positions = (courses, course_positions)"
| "find_courses (l # ls) i courses course_positions =
     (let line = strip l
      in if re_match course_rx line then
           (case code_and_name line of
              (course_code, course_name) \<Rightarrow>
                find_courses ls (i + 1) (courses @ [(course_code, course_name)])
                  (course_positions(course_code \<mapsto> i)))
         else find_courses ls (i + 1) courses course_positions)"

text \<open>
  The line range of the course at \<open>course_idx\<close>; \<open>None\<close> is the \<^verbatim>\<open>KeyError\<close> of
  a code that is not in the dictionary.
\<close>

definition course_range ::
  "string list \<Rightarrow> (string \<times> string) list \<Rightarrow> (string \<rightharpoonup> nat) \<Rightarrow> nat \<Rightarrow> (nat \<times> nat) option"
where
  "course_range lines courses course_positions course_idx =
     (case course_positions (fst (courses ! course_idx)) of
        None \<Rightarrow> None
      | Some course_start \<Rightarrow>
          if course_idx + 1 < length courses then
            (case course_positions (fst (courses ! (course_idx + 1))) of
               None \<Rightarrow> None
             | Some course_end \<Rightarrow> Some (course_start, course_end))
          else Some (course_start, length lines))"

text \<open>\<^verbatim>\<open>lines[course_start:course_end]\<close>, empty when the end is not after the start.\<close>

definition slice :: "'a list \<Rightarrow> nat \<Rightarrow> nat \<Rightarrow> 'a list" where
  "slice xs a b = take (b - a) (drop a xs)"

definition parse_course_section ::
  "string list \<Rightarrow> string \<Rightarrow> string \<Rightarrow> string \<Rightarrow> string \<Rightarrow> cutoff_record list option"
where
  "parse_course_section course_section institute_code institute_name course_code course_name =
     (let has_sections = list_ex (contains ''Home University Seats Allotted'') course_section
      in if has_sections
         then parse_multi_section_course course_section institute_code institute_name
                course_code course_name
         else Some (parse_simple_table_course course_section institute_code institute_name
                      course_code course_name))"

text \<open>The loop over the courses, by index; \<open>None\<close> when a pass does not return.\<close>

fun process_courses ::
  "string list \<Rightarrow> string \<Rightarrow> string \<Rightarrow> (string \<times> string) list \<Rightarrow> (string \<rightharpoonup> nat) \<Rightarrow>
   nat list \<Rightarrow> cutoff_record list \<Rightarrow> cutoff_record list option"
where
  "process_courses lines institute_code institute_name courses course_positions [] recs = Some recs"
| "process_courses lines institute_code institute_name courses course_positions
     (course_idx # rest) recs =
     (case course_range lines courses course_positions course_idx of
        None \<Rightarrow> None
      | Some (course_start, course_end) \<Rightarrow>
          (case parse_course_section (slice lines course_start course_end) institute_code
                  institute_name (fst (courses ! course_idx)) (snd (courses ! course_idx)) of
             None \<Rightarrow> None
           | Some found \<Rightarrow>
               process_courses lines institute_code institute_name courses course_positions
                 rest (recs @ found)))"

definition parse_cutoff_page_complete :: "string \<Rightarrow> cutoff_record list option" where
  "parse_cutoff_page_complete text =
     (let lines = split_lines text
      in case find_institute lines of
           None \<Rightarrow> Some []
         | Some (institute_code, institute_name) \<Rightarrow>
             if institute_code = [] then Some []
             else (case find_courses lines 0 [] Map.empty of
                     (courses, course_positions) \<Rightarrow>
                       if courses = [] then Some []
                       else process_courses lines institute_code institute_name courses
                              course_positions [0 ..< length courses] []))"

section \<open>The document\<close>

text \<open>
  The page loop of \<^verbatim>\<open>full_conversion\<close> over the texts of the pages: a short page is
  skipped, and so is a page whose parse does not return a list.
\<close>

fun collect_records :: "string list \<Rightarrow> cutoff_record list \<Rightarrow> cutoff_record list" where
  "collect_records [] all_records = all_records"
| "collect_records (text # pages) all_records =
     (if text = [] \<or> length (strip text) < 50 then collect_records pages all_records
      else (case parse_cutoff_page_complete text of
              None \<Rightarrow> collect_records pages all_records
            | Some recs \<Rightarrow> collect_records pages (all_records @ recs)))"

text \<open>\<^verbatim>\<open>df.drop_duplicates()\<close> keeps the first of equal rows.\<close>

fun drop_duplicates :: "'a list \<Rightarrow> 'a list" where
  "drop_duplicates [] = []"
| "drop_duplicates (x # xs) = x # drop_duplicates (filter (\<lambda>y. y \<noteq> x) xs)"

text \<open>
  \<^verbatim>\<open>df.sort_values(['Institute_Code', 'Course_Code', 'Category'])\<close>: a stable sort
  on the three columns, strings compared character by character.
\<close>

definition sort_columns :: "cutoff_record \<Rightarrow> string \<times> string \<times> string" where
  "sort_columns r = (Institute_Code r, Course_Code r, Category r)"

definition sort_values :: "cutoff_record list \<Rightarrow> cutoff_record list" where
  "sort_values df = sort_key sort_columns df"

text \<open>The rows written to the file; \<open>None\<close> when there are no records and no file.\<close>

definition final_dataset :: "cutoff_record list \<Rightarrow> cutoff_record list option" where
  "final_dataset all_records =
     (if all_records = [] then None
      else Some (sort_values (drop_duplicates all_records)))"

definition full_conversion :: "string list \<Rightarrow> cutoff_record list option" where
  "full_conversion pages = final_dataset (collect_records pages [])"

section \<open>Derived notions used in the statements\<close>

text \<open>The text of a page from its lines: \<^verbatim>\<open>'\n'.join(lines)\<close>.\<close>

fun join_lines :: "string list \<Rightarrow> string" where
  "join_lines [] = []"
| "join_lines [l] = l"
| "join_lines (l # m # ls) = l @ CHR 0x0A # join_lines (m # ls)"

text \<open>
  The lines that the percentile loop of the simple table reads when it starts at \<open>d\<close>:
  the lines from \<open>d\<close> on, up to and including the first one that ends the data.
\<close>

definition data_lines :: "string list \<Rightarrow> nat \<Rightarrow> string list" where
  "data_lines course_section d =
     (let rest = drop d course_section
      in takeWhile (\<lambda>l. \<not> ends_data (strip l)) rest @
         take 1 (dropWhile (\<lambda>l. \<not> ends_data (strip l)) rest))"

text \<open>
  The pattern as the specification writes it, \<^verbatim>\<open>\(([0-9]+\.?[0-9]*)\)\<close>, whose last
  repetition may be empty.
\<close>

definition spec_percentile_rx :: regex where
  "spec_percentile_rx =
     [Lit CHR ''('', GroupOpen, Rep (Range CHR ''0'' CHR ''9'') 1 None,
      Rep (OneOf ''.'') 0 (Some 1), Rep (Range CHR ''0'' CHR ''9'') 0 None, GroupClose,
      Lit CHR '')'']"

text \<open>The four section markers of the specification.\<close>

definition section_markers :: "string list" where
  "section_markers =
     [''Home University Seats Allotted to Home University'',
      ''Home University Seats Allotted to Other Than Home University'',
      ''Other Than Home University Seats Allotted to Other Than Home University'',
      ''State Level'']"

text \<open>The line ranges that the page parser gives to the courses of a page, in order.\<close>

definition page_course_ranges :: "string list \<Rightarrow> (nat \<times> nat) option list" where
  "page_course_ranges lines =
     (case find_courses lines 0 [] Map.empty of
        (courses, course_positions) \<Rightarrow>
          map (course_range lines courses course_positions) [0 ..< length courses])"

text \<open>
  The numbers of the lines of a page that are course headers, the course codes on them,
  and the ranges from each header to the next, the last one to the end of the page.
\<close>

definition header_lines :: "string list \<Rightarrow> nat list" where
  "header_lines lines =
     filter (\<lambda>i. re_match course_rx (strip (lines ! i))) [0 ..< length lines]"

definition header_codes :: "string list \<Rightarrow> string list" where
  "header_codes lines = map (\<lambda>i. fst (code_and_name (strip (lines ! i)))) (header_lines lines)"

definition header_to_header :: "string list \<Rightarrow> (nat \<times> nat) option list" where
  "header_to_header lines =
     (let hs = header_lines lines
      in map (\<lambda>k. Some (hs ! k, if k + 1 < length hs then hs ! (k + 1) else length lines))
           [0 ..< length hs])"

section \<open>The category corrector\<close>

lemma fix_table_result:
  "map_of category_fixes w = Some v \<Longrightarrow> \<not> startswith v ''S''"
  by (auto simp: category_fixes_def startswith_def split: if_splits)

lemma fix_table_key:
  "map_of category_fixes w = Some v \<Longrightarrow> startswith w ''S''"
  by (auto simp: category_fixes_def startswith_def split: if_splits)

lemma fix_category_name_other:
  "\<not> startswith w ''S'' \<Longrightarrow> fix_category_name w = w"
  using fix_table_key [of w]
  by (cases "map_of category_fixes w") (auto simp: fix_category_name_def)

text \<open>
  C4, as stated: the corrector is idempotent on every token. It is not: from SSGOPENS
  one application removes one S and gives SGOPENS, and the next removes the other.
\<close>

theorem fix_category_name_not_idempotent:
  "fix_category_name ''SSGOPENS'' = ''SGOPENS'' \<and>
   fix_category_name (fix_category_name ''SSGOPENS'') = ''GOPENS'' \<and>
   fix_category_name (fix_category_name ''SSGOPENS'') \<noteq> fix_category_name ''SSGOPENS''"
  by code_simp

text \<open>
  C4, amended: on every token that does not begin with two letters S, correcting twice
  gives the same as correcting once.
\<close>

theorem fix_category_name_idempotent:
  assumes "\<not> startswith w ''SS''"
  shows "fix_category_name (fix_category_name w) = fix_category_name w"
proof (cases "map_of category_fixes w")
  case (Some v)
  then have "fix_category_name w = v"
    by (simp add: fix_category_name_def)
  with fix_table_result [OF Some] show ?thesis
    by (simp add: fix_category_name_other)
next
  case None
  show ?thesis
  proof (cases "fix_category_name w = w")
    case True
    then show ?thesis by simp
  next
    case False
    with None have r: "fix_category_name w = drop 1 w" and s: "startswith w ''S''"
      by (auto simp: fix_category_name_def Let_def split: if_splits)
    from s assms have "\<not> startswith (drop 1 w) ''S''"
      by (cases w; cases "tl w") (auto simp: startswith_def)
    with r show ?thesis
      by (simp add: fix_category_name_other)
  qed
qed

theorem fix_category_name_idempotent_witness:
  "\<not> startswith ''SGOPENS'' ''SS'' \<and>
   fix_category_name (fix_category_name ''SGOPENS'') = fix_category_name ''SGOPENS''"
  using fix_category_name_idempotent [of "''SGOPENS''"] by (simp add: startswith_def)

section \<open>Pairing categories with percentiles\<close>

lemma length_create_records:
  "length (create_records ic iname cc cname C P) = length C"
  by (simp add: create_records_def)

lemma nth_create_records:
  assumes "i < length C"
  shows "create_records ic iname cc cname C P ! i =
    \<lparr>Institute_Code = ic, Institute_Name = iname, Course_Code = cc, Course = cname,
     Category = C ! i, Percentile = (if i < length P then Some (P ! i) else None)\<rparr>"
  using assms by (simp add: create_records_def nth_enumerate_eq)

lemma create_records_take:
  "create_records ic iname cc cname C (take (length C) P) = create_records ic iname cc cname C P"
proof (rule nth_equalityI)
  show "length (create_records ic iname cc cname C (take (length C) P)) =
    length (create_records ic iname cc cname C P)"
    by (simp add: length_create_records)
next
  fix i
  assume "i < length (create_records ic iname cc cname C (take (length C) P))"
  then have i: "i < length C"
    by (simp add: length_create_records)
  then show "create_records ic iname cc cname C (take (length C) P) ! i =
    create_records ic iname cc cname C P ! i"
    by (simp add: nth_create_records)
qed

text \<open>
  C5. The pairing is positional: for every category list \<open>C\<close> and percentile list \<open>P\<close>
  there are exactly \<open>length C\<close> records; record \<open>i\<close> carries category \<open>C ! i\<close> and the
  percentile \<open>P ! i\<close> when \<open>i < length P\<close>, no percentile otherwise; the percentiles
  beyond \<open>length C\<close> have no effect. With the categories GOPENS, GOPENH, GSCS and the
  percentiles 99.99 and 95.0 the three records carry 99.99, 95.0 and no percentile.
\<close>

theorem create_records_positional:
  "length (create_records ic iname cc cname C P) = length C \<and>
   (\<forall>i < length C.
      Category (create_records ic iname cc cname C P ! i) = C ! i \<and>
      Percentile (create_records ic iname cc cname C P ! i) =
        (if i < length P then Some (P ! i) else None)) \<and>
   create_records ic iname cc cname C (take (length C) P) = create_records ic iname cc cname C P \<and>
   map (\<lambda>r. (Category r, Percentile r))
     (create_records ic iname cc cname [''GOPENS'', ''GOPENH'', ''GSCS'']
        [py_float ''99.99'', py_float ''95.0'']) =
   [(''GOPENS'', Some (py_float ''99.99'')), (''GOPENH'', Some (py_float ''95.0'')),
    (''GSCS'', None)]"
proof -
  have "map (\<lambda>r. (Category r, Percentile r))
     (create_records ic iname cc cname [''GOPENS'', ''GOPENH'', ''GSCS'']
        [py_float ''99.99'', py_float ''95.0'']) =
   [(''GOPENS'', Some (py_float ''99.99'')), (''GOPENH'', Some (py_float ''95.0'')),
    (''GSCS'', None)]"
    by (simp add: create_records_def enumerate_eq_zip upt_rec)
  then show ?thesis
    by (simp add: length_create_records nth_create_records create_records_take)
qed

theorem create_records_positional_witness:
  "(2 :: nat) < length [''GOPENS'', ''GOPENH'', ''GSCS''] \<and>
   Category (create_records ''12345'' ''ABC'' ''1234567890'' ''Computer Engineering''
       [''GOPENS'', ''GOPENH'', ''GSCS''] [Finite 99, Finite 95] ! 2) = ''GSCS'' \<and>
   Percentile (create_records ''12345'' ''ABC'' ''1234567890'' ''Computer Engineering''
       [''GOPENS'', ''GOPENH'', ''GSCS''] [Finite 99, Finite 95] ! 2) = None"
  using create_records_positional [of "''12345''" "''ABC''" "''1234567890''"
      "''Computer Engineering''" "[''GOPENS'', ''GOPENH'', ''GSCS'']" "[Finite 99, Finite 95]"]
  by simp

section \<open>The loops of the simple table\<close>

lemma additional_categories_no_stop:
  assumes "\<forall>j. start \<le> j \<and> j < length cs \<longrightarrow>
     \<not> hits_data_line (strip (cs ! j)) \<and> \<not> hits_structural_element (strip (cs ! j))"
  shows "snd (additional_categories cs start cats) = None"
  using assms
proof (induction cs start cats rule: additional_categories.induct)
  case (1 cs j cats)
  show ?case
  proof (cases "j < length cs")
    case True
    with "1.prems" have ns: "\<not> hits_data_line (strip (cs ! j))"
      "\<not> hits_structural_element (strip (cs ! j))"
      by auto
    have "snd (additional_categories cs (j + 1)
        (cats @ categories_of (if split_ws (strip (cs ! j)) \<noteq> [] then split_ws (strip (cs ! j))
           else [strip (cs ! j)]))) = None"
      using "1.IH" [OF True refl _ _ refl] ns "1.prems" by simp
    with True ns show ?thesis
      by (subst additional_categories.simps) (simp add: Let_def)
  next
    case False
    then show ?thesis
      by (subst additional_categories.simps) simp
  qed
qed

lemma main_header_scan_first:
  assumes "i < length cs" and "s \<le> i"
    and "\<forall>k. s \<le> k \<and> k < i \<longrightarrow> \<not> is_main_header (strip (cs ! k))"
    and "is_main_header (strip (cs ! i))"
  shows "main_header_scan cs s =
    additional_categories cs (i + 1) (categories_of (split_ws (strip (cs ! i))))"
  using assms
proof (induction cs s rule: main_header_scan.induct)
  case (1 cs s)
  show ?case
  proof (cases "s = i")
    case True
    with "1.prems" show ?thesis
      by (subst main_header_scan.simps) (simp add: Let_def)
  next
    case False
    with "1.prems" have lt: "s < i" and sl: "s < length cs"
      and nh: "\<not> is_main_header (strip (cs ! s))"
      by auto
    have "main_header_scan cs (s + 1) =
      additional_categories cs (i + 1) (categories_of (split_ws (strip (cs ! i))))"
      using "1.IH" [OF sl refl nh] "1.prems" lt by simp
    with sl nh show ?thesis
      by (subst main_header_scan.simps) (simp add: Let_def)
  qed
qed

lemma main_header_scan_none:
  assumes "\<forall>k. s \<le> k \<and> k < length cs \<longrightarrow> \<not> is_main_header (strip (cs ! k))"
  shows "main_header_scan cs s = ([], None)"
  using assms
proof (induction cs s rule: main_header_scan.induct)
  case (1 cs s)
  show ?case
  proof (cases "s < length cs")
    case True
    with "1.prems" have nh: "\<not> is_main_header (strip (cs ! s))" by auto
    have "main_header_scan cs (s + 1) = ([], None)"
      using "1.IH" [OF True refl nh] "1.prems" by simp
    with True nh show ?thesis
      by (subst main_header_scan.simps) (simp add: Let_def)
  next
    case False
    then show ?thesis
      by (subst main_header_scan.simps) simp
  qed
qed

lemma data_percentiles_eq:
  "data_percentiles cs d acc =
     acc @ concat (map (\<lambda>l. percentiles_of (strip l)) (data_lines cs d))"
proof (induction cs d acc rule: data_percentiles.induct)
  case (1 cs i acc)
  show ?case
  proof (cases "i < length cs")
    case True
    then have dr: "drop i cs = cs ! i # drop (Suc i) cs"
      by (simp add: Cons_nth_drop_Suc)
    show ?thesis
    proof (cases "ends_data (strip (cs ! i))")
      case e: True
      with True dr show ?thesis
        by (subst data_percentiles.simps) (simp add: Let_def data_lines_def)
    next
      case e: False
      have "data_percentiles cs (i + 1) (acc @ percentiles_of (strip (cs ! i))) =
        (acc @ percentiles_of (strip (cs ! i))) @
          concat (map (\<lambda>l. percentiles_of (strip l)) (data_lines cs (i + 1)))"
        using "1.IH" [OF True refl refl e] .
      with True dr e show ?thesis
        by (subst data_percentiles.simps) (simp add: Let_def data_lines_def)
    qed
  next
    case False
    then show ?thesis
      by (subst data_percentiles.simps) (simp add: data_lines_def)
  qed
qed

section \<open>Pages without an institute, tables without a data line\<close>

lemma find_institute_none:
  "(\<forall>l \<in> set ls. \<not> re_match institute_rx (strip l)) \<Longrightarrow> find_institute ls = None"
  by (induction ls) (simp_all add: Let_def)

text \<open>
  C8. When no stripped line of the page matches \<^verbatim>\<open>^\d{5} - \<close>, the parse of the whole
  page returns the empty list of records, whatever course headers and tables the page
  holds.
\<close>

theorem page_without_institute:
  assumes "\<forall>l \<in> set (split_lines text). \<not> re_match institute_rx (strip l)"
  shows "parse_cutoff_page_complete text = Some []"
  using find_institute_none [OF assms] by (simp add: parse_cutoff_page_complete_def)

theorem page_without_institute_witness:
  "map (\<lambda>l. re_match institute_rx (strip l)) (split_lines (join_lines
      [''1234567890 - Computer Engineering'',
       ''GOPENS GOPENH GSCS GSTS GVJS GNT1S GNT2S GOBCS'',
       ''I 1 (99.99) 2 (95.00)''])) = [False, False, False] \<and>
   re_match course_rx ''1234567890 - Computer Engineering'' \<and>
   parse_cutoff_page_complete (join_lines
      [''1234567890 - Computer Engineering'',
       ''GOPENS GOPENH GSCS GSTS GVJS GNT1S GNT2S GOBCS'',
       ''I 1 (99.99) 2 (95.00)'']) = Some []"
proof -
  have h: "\<forall>l \<in> set (split_lines (join_lines
      [''1234567890 - Computer Engineering'',
       ''GOPENS GOPENH GSCS GSTS GVJS GNT1S GNT2S GOBCS'',
       ''I 1 (99.99) 2 (95.00)''])). \<not> re_match institute_rx (strip l)"
    by code_simp
  have m: "map (\<lambda>l. re_match institute_rx (strip l)) (split_lines (join_lines
      [''1234567890 - Computer Engineering'',
       ''GOPENS GOPENH GSCS GSTS GVJS GNT1S GNT2S GOBCS'',
       ''I 1 (99.99) 2 (95.00)''])) = [False, False, False]"
    by code_simp
  have c: "re_match course_rx ''1234567890 - Computer Engineering''"
    by code_simp
  from m c page_without_institute [OF h] show ?thesis by blast
qed

text \<open>
  C9. In the simple table, when line \<open>i\<close> is the main category header, at least one
  category is collected, and no later line of the block stops the collection of
  categories (none is blank, holds a decimal in parentheses, or starts with "I ", "Home",
  "Other" or "State"), then no data start is recorded, no percentile is extracted, and
  every record has no percentile, also when later lines hold numbers in parentheses.
\<close>

theorem simple_table_without_stop_line:
  assumes "i < length cs"
    and "\<forall>k<i. \<not> is_main_header (strip (cs ! k))"
    and "is_main_header (strip (cs ! i))"
    and "\<forall>j. i < j \<and> j < length cs \<longrightarrow>
       \<not> hits_data_line (strip (cs ! j)) \<and> \<not> hits_structural_element (strip (cs ! j))"
    and "fst (main_header_scan cs 0) \<noteq> []"
  shows "snd (main_header_scan cs 0) = None \<and>
    simple_percentiles cs (snd (main_header_scan cs 0)) = [] \<and>
    length (parse_simple_table_course cs ic iname cc cname) = length (fst (main_header_scan cs 0)) \<and>
    (\<forall>r \<in> set (parse_simple_table_course cs ic iname cc cname). Percentile r = None)"
proof -
  have scan: "main_header_scan cs 0 =
    additional_categories cs (i + 1) (categories_of (split_ws (strip (cs ! i))))"
    using assms(1-3) by (intro main_header_scan_first) auto
  have none: "snd (main_header_scan cs 0) = None"
    unfolding scan using assms(4) by (intro additional_categories_no_stop) auto
  obtain cats where m: "main_header_scan cs 0 = (cats, None)"
    using none by (cases "main_header_scan cs 0") auto
  with assms(5) have ne: "cats \<noteq> []" by simp
  have p: "parse_simple_table_course cs ic iname cc cname =
    create_records ic iname cc cname cats []"
    using m ne by (simp add: parse_simple_table_course_def simple_percentiles_def)
  have "\<forall>r \<in> set (create_records ic iname cc cname cats []). Percentile r = None"
    by (auto simp: create_records_def)
  with p m show ?thesis
    by (simp add: simple_percentiles_def length_create_records)
qed

theorem simple_table_without_stop_line_witness:
  "is_main_header (strip ([''1234567890 - Computer Engineering'',
       ''GOPENS GOPENH GSCS GSTS GVJS GNT1S GNT2S GOBCS'', ''GOBCH 95 (95) (96)''] ! 1)) \<and>
   percentiles_of ''GOBCH 95 (95) (96)'' = [Finite 95, Finite 96] \<and>
   map (\<lambda>r. (Category r, Percentile r))
     (parse_simple_table_course [''1234567890 - Computer Engineering'',
       ''GOPENS GOPENH GSCS GSTS GVJS GNT1S GNT2S GOBCS'', ''GOBCH 95 (95) (96)'']
       ''12345'' ''ABC College Of Engineering'' ''1234567890'' ''Computer Engineering'') =
   [(''GOPENS'', None), (''GOPENH'', None), (''GSCS'', None), (''GSTS'', None), (''GVJS'', None),
    (''GNT1S'', None), (''GNT2S'', None), (''GOBCS'', None), (''GOBCH'', None)] \<and>
   snd (main_header_scan [''1234567890 - Computer Engineering'',
       ''GOPENS GOPENH GSCS GSTS GVJS GNT1S GNT2S GOBCS'', ''GOBCH 95 (95) (96)''] 0) = None \<and>
   list_all (\<lambda>r. Percentile r = None)
     (parse_simple_table_course [''1234567890 - Computer Engineering'',
       ''GOPENS GOPENH GSCS GSTS GVJS GNT1S GNT2S GOBCS'', ''GOBCH 95 (95) (96)'']
       ''12345'' ''ABC College Of Engineering'' ''1234567890'' ''Computer Engineering'')"
proof -
  let ?cs = "[''1234567890 - Computer Engineering'',
       ''GOPENS GOPENH GSCS GSTS GVJS GNT1S GNT2S GOBCS'', ''GOBCH 95 (95) (96)'']"
  have h0: "\<not> is_main_header (strip (?cs ! 0))" by code_simp
  have h1: "is_main_header (strip (?cs ! 1))" by code_simp
  have h2: "\<not> hits_data_line (strip (?cs ! 2)) \<and> \<not> hits_structural_element (strip (?cs ! 2))"
    by code_simp
  have h3: "fst (main_header_scan ?cs 0) \<noteq> []" by code_simp
  have p: "percentiles_of ''GOBCH 95 (95) (96)'' = [Finite 95, Finite 96]" by code_simp
  have r: "map (\<lambda>r. (Category r, Percentile r))
     (parse_simple_table_course ?cs
       ''12345'' ''ABC College Of Engineering'' ''1234567890'' ''Computer Engineering'') =
   [(''GOPENS'', None), (''GOPENH'', None), (''GSCS'', None), (''GSTS'', None), (''GVJS'', None),
    (''GNT1S'', None), (''GNT2S'', None), (''GOBCS'', None), (''GOBCH'', None)]"
    by code_simp
  have a: "\<forall>k<1. \<not> is_main_header (strip (?cs ! k))"
    using h0 by simp
  have b: "\<forall>j. 1 < j \<and> j < length ?cs \<longrightarrow>
       \<not> hits_data_line (strip (?cs ! j)) \<and> \<not> hits_structural_element (strip (?cs ! j))"
  proof (intro allI impI)
    fix j :: nat
    assume "1 < j \<and> j < length ?cs"
    then have "j = 2" by simp
    with h2 show "\<not> hits_data_line (strip (?cs ! j)) \<and> \<not> hits_structural_element (strip (?cs ! j))"
      by simp
  qed
  have l: "1 < length ?cs" by simp
  from simple_table_without_stop_line [OF l a h1 b h3, of "''12345''"
      "''ABC College Of Engineering''" "''1234567890''" "''Computer Engineering''"]
  have "snd (main_header_scan ?cs 0) = None \<and>
    list_all (\<lambda>r. Percentile r = None) (parse_simple_table_course ?cs
       ''12345'' ''ABC College Of Engineering'' ''1234567890'' ''Computer Engineering'')"
    unfolding list_all_iff by blast
  with h1 p r show ?thesis by blast
qed

section \<open>The percentiles of the simple table\<close>

text \<open>
  C3, as stated: the percentiles are the captures of \<^verbatim>\<open>\(([0-9]+\.?[0-9]*)\)\<close> with a
  value in [0,100], so that "(9)" and "(99.)" are extracted. In the block below the data
  start is recorded at line 2, the pattern of the claim captures 9 and 99. there, both
  with a value in range, and the parser extracts nothing.
\<close>

theorem single_digit_not_extracted:
  "main_header_scan [''1234567890 - Computer Engineering'',
       ''GOPENS GOPENH GSCS GSTS GVJS GNT1S GNT2S GOBCS'', ''I 9 (9) 99 (99.)''] 0 =
     ([''GOPENS'', ''GOPENH'', ''GSCS'', ''GSTS'', ''GVJS'', ''GNT1S'', ''GNT2S'', ''GOBCS''], Some 2) \<and>
   re_findall spec_percentile_rx ''I 9 (9) 99 (99.)'' = [''9'', ''99.''] \<and>
   filter in_percent_range (map py_float [''9'', ''99.'']) = [Finite 9, Finite 99] \<and>
   simple_percentiles [''1234567890 - Computer Engineering'',
       ''GOPENS GOPENH GSCS GSTS GVJS GNT1S GNT2S GOBCS'', ''I 9 (9) 99 (99.)''] (Some 2) = []"
  by code_simp

text \<open>
  C3, amended: with the data start at line \<open>d\<close>, the percentile list is made of the
  captures of the pattern of the source, \<^verbatim>\<open>\(([0-9]+\.?[0-9]+)\)\<close>, whose value as a
  float lies in [0,100], in the order of their appearance over the lines read: those from
  \<open>d\<close> up to and including the first that ends the data. The pattern needs a digit
  before the closing parenthesis and at least two characters inside: "(9)" and "(99.)"
  are not extracted, "(95)" and "(9.5)" are.
\<close>

theorem simple_percentiles_are_captures:
  "simple_percentiles cs (Some d) =
     concat (map (\<lambda>l. filter in_percent_range (map py_float (re_findall percentile_rx (strip l))))
       (data_lines cs d)) \<and>
   re_findall percentile_rx ''(9)'' = [] \<and>
   re_findall percentile_rx ''(99.)'' = [] \<and>
   re_findall percentile_rx ''(95) (9.5) (100.25)'' = [''95'', ''9.5'', ''100.25'']"
proof -
  have a: "re_findall percentile_rx ''(9)'' = []" by code_simp
  have b: "re_findall percentile_rx ''(99.)'' = []" by code_simp
  have c: "re_findall percentile_rx ''(95) (9.5) (100.25)'' = [''95'', ''9.5'', ''100.25'']"
    by code_simp
  have "simple_percentiles cs (Some d) =
     concat (map (\<lambda>l. percentiles_of (strip l)) (data_lines cs d))"
    by (simp add: simple_percentiles_def data_percentiles_eq)
  with a b c show ?thesis
    by (simp add: percentiles_of_def)
qed

section \<open>A page with one simple table\<close>

text \<open>
  C1, as stated: the page of four lines gives four records. It gives none: the category
  line has four words, and a main category header has at least eight.
\<close>

theorem four_word_header_gives_no_record:
  "parse_cutoff_page_complete (join_lines
     [''12345 - ABC College Of Engineering'',
      ''1234567890 - Computer Engineering'',
      ''GOPENS GOPENH GSCS GSTS'',
      ''I 99.99 (99.99) 95.00 (95.00) 90.00 (90.00) 85.00 (85.00)'']) = Some [] \<and>
   map_option length (parse_cutoff_page_complete (join_lines
     [''12345 - ABC College Of Engineering'',
      ''1234567890 - Computer Engineering'',
      ''GOPENS GOPENH GSCS GSTS'',
      ''I 99.99 (99.99) 95.00 (95.00) 90.00 (90.00) 85.00 (85.00)''])) \<noteq> Some 4"
  by code_simp

text \<open>
  C1, amended: the page of four lines gives no record; with eight categories on the
  category line and eight values on the data line, the page gives eight records, all
  with institute code 12345 and course code 1234567890, the categories in their order,
  each with the percentile at the same place.
\<close>

theorem simple_page_end_to_end:
  "parse_cutoff_page_complete (join_lines
     [''12345 - ABC College Of Engineering'',
      ''1234567890 - Computer Engineering'',
      ''GOPENS GOPENH GSCS GSTS'',
      ''I 99.99 (99.99) 95.00 (95.00) 90.00 (90.00) 85.00 (85.00)'']) = Some [] \<and>
   map_option (map (\<lambda>r. (Institute_Code r, Course_Code r, Category r, Percentile r)))
     (parse_cutoff_page_complete (join_lines
       [''12345 - ABC College Of Engineering'',
        ''1234567890 - Computer Engineering'',
        ''GOPENS GOPENH GSCS GSTS GVJS GNT1S GNT2S GOBCS'',
        ''I 99.99 (99.99) 95.00 (95.00) 90.00 (90.00) 85.00 (85.00) 80.00 (80.00) 75.00 (75.00) 70.00 (70.00) 65.00 (65.00)''])) =
   Some [(''12345'', ''1234567890'', ''GOPENS'', Some (py_float ''99.99'')),
         (''12345'', ''1234567890'', ''GOPENH'', Some (py_float ''95.00'')),
         (''12345'', ''1234567890'', ''GSCS'', Some (py_float ''90.00'')),
         (''12345'', ''1234567890'', ''GSTS'', Some (py_float ''85.00'')),
         (''12345'', ''1234567890'', ''GVJS'', Some (py_float ''80.00'')),
         (''12345'', ''1234567890'', ''GNT1S'', Some (py_float ''75.00'')),
         (''12345'', ''1234567890'', ''GNT2S'', Some (py_float ''70.00'')),
         (''12345'', ''1234567890'', ''GOBCS'', Some (py_float ''65.00''))]"
  by code_simp

section \<open>The loops of the multi-section table\<close>

lemma startswith_iff: "startswith s p \<longleftrightarrow> (\<exists>q. s = p @ q)"
proof
  assume "startswith s p"
  then have "s = p @ drop (length p) s"
    by (metis append_take_drop_id startswith_def)
  then show "\<exists>q. s = p @ q" ..
next
  assume "\<exists>q. s = p @ q"
  then show "startswith s p"
    by (auto simp: startswith_def)
qed

lemma contains_iff: "contains sub s \<longleftrightarrow> (\<exists>p q. s = p @ sub @ q)"
proof (induction s)
  case Nil
  then show ?case by auto
next
  case (Cons c cs)
  show ?case
  proof
    assume "contains sub (c # cs)"
    then consider "startswith (c # cs) sub" | "contains sub cs" by auto
    then show "\<exists>p q. c # cs = p @ sub @ q"
    proof cases
      case 1
      then obtain q where "c # cs = sub @ q" by (auto simp: startswith_iff)
      then have "c # cs = [] @ sub @ q" by simp
      then show ?thesis by blast
    next
      case 2
      with Cons.IH obtain p q where "cs = p @ sub @ q" by auto
      then have "c # cs = (c # p) @ sub @ q" by simp
      then show ?thesis by blast
    qed
  next
    assume "\<exists>p q. c # cs = p @ sub @ q"
    then obtain p q where e: "c # cs = p @ sub @ q" by auto
    show "contains sub (c # cs)"
    proof (cases p)
      case Nil
      with e have "startswith (c # cs) sub" by (auto simp: startswith_iff)
      then show ?thesis by simp
    next
      case (Cons a p')
      with e have "cs = p' @ sub @ q" by simp
      with Cons.IH have "contains sub cs" by auto
      then show ?thesis by simp
    qed
  qed
qed

lemma contains_prefix: "contains (a @ b) s \<Longrightarrow> contains a s"
  unfolding contains_iff by (metis append.assoc)

lemma header_stops:
  assumes "is_section_header l"
  shows "stops_categories l" and "stops_percentiles l"
proof -
  have a: "contains ''Home University Seats Allotted to Home University'' l \<Longrightarrow>
      contains ''Home University Seats Allotted'' l"
    using contains_prefix [of "''Home University Seats Allotted''" "'' to Home University''" l]
    by simp
  have b: "contains ''Home University Seats Allotted to Other Than Home University'' l \<Longrightarrow>
      contains ''Home University Seats Allotted'' l"
    using contains_prefix [of "''Home University Seats Allotted''"
        "'' to Other Than Home University''" l]
    by simp
  have c: "contains ''Other Than Home University Seats Allotted to Other Than Home University'' l \<Longrightarrow>
      contains ''Other Than Home University Seats Allotted'' l"
    using contains_prefix [of "''Other Than Home University Seats Allotted''"
        "'' to Other Than Home University''" l]
    by simp
  from assms a b c show "stops_categories l"
    unfolding is_section_header_def stops_categories_def by blast
  from assms a b c show "stops_percentiles l"
    unfolding is_section_header_def stops_percentiles_def by blast
qed

lemma section_categories_bounds:
  "j \<le> snd (section_categories cs j c) \<and>
   snd (section_categories cs j c) \<le> max j (length cs) \<and>
   (\<forall>k. j \<le> k \<and> k < snd (section_categories cs j c) \<longrightarrow> \<not> stops_categories (strip (cs ! k)))"
proof (induction cs j c rule: section_categories.induct)
  case (1 cs j c)
  show ?case
  proof (cases "j < length cs \<and> \<not> stops_categories (strip (cs ! j))")
    case True
    define c' where
      "c' = (if strip (cs ! j) \<noteq> [] then c @ categories_of (split_ws (strip (cs ! j))) else c)"
    define r where "r = snd (section_categories cs (j + 1) c')"
    have e: "snd (section_categories cs j c) = r"
      using True unfolding r_def c'_def
      by (subst section_categories.simps) (simp add: Let_def)
    have ih: "j + 1 \<le> r \<and> r \<le> max (j + 1) (length cs) \<and>
      (\<forall>k. j + 1 \<le> k \<and> k < r \<longrightarrow> \<not> stops_categories (strip (cs ! k)))"
      using "1.IH" [of "strip (cs ! j)"] True unfolding r_def c'_def by simp
    have "\<not> stops_categories (strip (cs ! k))" if "j \<le> k \<and> k < r" for k
    proof (cases "k = j")
      case True
      with \<open>j < length cs \<and> \<not> stops_categories (strip (cs ! j))\<close> show ?thesis by simp
    next
      case False
      with that have "j + 1 \<le> k \<and> k < r" by arith
      with ih show ?thesis by blast
    qed
    moreover have "j \<le> r" using ih by arith
    moreover have "r \<le> max j (length cs)" using ih True by (simp add: max_def)
    ultimately show ?thesis unfolding e by blast
  next
    case False
    then have "snd (section_categories cs j c) = j"
      by (subst section_categories.simps) (auto simp: Let_def)
    then show ?thesis by auto
  qed
qed

lemma section_percentiles_bounds:
  "j \<le> snd (section_percentiles cs j p) \<and>
   snd (section_percentiles cs j p) \<le> max j (length cs) \<and>
   (\<forall>k. j \<le> k \<and> k < snd (section_percentiles cs j p) \<longrightarrow> \<not> stops_percentiles (strip (cs ! k)))"
proof (induction cs j p rule: section_percentiles.induct)
  case (1 cs j p)
  show ?case
  proof (cases "j < length cs \<and> \<not> stops_percentiles (strip (cs ! j))")
    case True
    define p' where "p' = p @ percentiles_of (strip (cs ! j))"
    define r where "r = snd (section_percentiles cs (j + 1) p')"
    have e: "snd (section_percentiles cs j p) = r"
      using True unfolding r_def p'_def
      by (subst section_percentiles.simps) (simp add: Let_def)
    have ih: "j + 1 \<le> r \<and> r \<le> max (j + 1) (length cs) \<and>
      (\<forall>k. j + 1 \<le> k \<and> k < r \<longrightarrow> \<not> stops_percentiles (strip (cs ! k)))"
      using "1.IH" [of "strip (cs ! j)" p'] True unfolding r_def p'_def by simp
    have "\<not> stops_percentiles (strip (cs ! k))" if "j \<le> k \<and> k < r" for k
    proof (cases "k = j")
      case True
      with \<open>j < length cs \<and> \<not> stops_percentiles (strip (cs ! j))\<close> show ?thesis by simp
    next
      case False
      with that have "j + 1 \<le> k \<and> k < r" by arith
      with ih show ?thesis by blast
    qed
    moreover have "j \<le> r" using ih by arith
    moreover have "r \<le> max j (length cs)" using ih True by (simp add: max_def)
    ultimately show ?thesis unfolding e by blast
  next
    case False
    then have "snd (section_percentiles cs j p) = j"
      by (subst section_percentiles.simps) (auto simp: Let_def)
    then show ?thesis by auto
  qed
qed


lemma multi_section_step_plain:
  assumes "\<not> is_section_header (strip (cs ! cursor st))"
  shows "multi_section_step cs ic iname cc cname st = st\<lparr>cursor := cursor st + 1\<rparr>"
  using assms by (simp add: multi_section_step_def Let_def)

lemma multi_section_step_header:
  assumes "is_section_header (strip (cs ! cursor st))"
  shows "cursor (multi_section_step cs ic iname cc cname st) =
      snd (section_percentiles cs (snd (section_categories cs (cursor st + 1) [])) [])"
    and "opened (multi_section_step cs ic iname cc cname st) = opened st @ [cursor st]"
    and "records (multi_section_step cs ic iname cc cname st) =
      records st @ create_records ic iname cc cname
        (fst (section_categories cs (cursor st + 1) []))
        (fst (section_percentiles cs (snd (section_categories cs (cursor st + 1) [])) []))"
  using assms by (simp_all add: multi_section_step_def Let_def case_prod_unfold)

lemma multi_section_step_cursor:
  assumes "cursor st < length cs"
  shows "cursor st < cursor (multi_section_step cs ic iname cc cname st)"
    and "cursor (multi_section_step cs ic iname cc cname st) \<le> length cs"
proof -
  let ?j = "snd (section_categories cs (cursor st + 1) [])"
  let ?j' = "snd (section_percentiles cs ?j [])"
  have a: "cursor st + 1 \<le> ?j" "?j \<le> max (cursor st + 1) (length cs)"
    using section_categories_bounds [of "cursor st + 1" cs "[]"] by auto
  have b: "?j \<le> ?j'" "?j' \<le> max ?j (length cs)"
    using section_percentiles_bounds [of ?j cs "[]"] by auto
  from a b assms have c: "cursor st < ?j'" "?j' \<le> length cs"
    by (auto simp: max_def split: if_splits)
  show "cursor st < cursor (multi_section_step cs ic iname cc cname st)"
    using c(1) by (cases "is_section_header (strip (cs ! cursor st))")
      (simp_all add: multi_section_step_header multi_section_step_plain)
  show "cursor (multi_section_step cs ic iname cc cname st) \<le> length cs"
    using c(2) assms by (cases "is_section_header (strip (cs ! cursor st))")
      (simp_all add: multi_section_step_header multi_section_step_plain)
qed

lemma multi_section_step_skips_no_header:
  assumes "is_section_header (strip (cs ! cursor st))"
    and "cursor st < k" and "k < cursor (multi_section_step cs ic iname cc cname st)"
  shows "\<not> is_section_header (strip (cs ! k))"
proof -
  let ?j = "snd (section_categories cs (cursor st + 1) [])"
  let ?j' = "snd (section_percentiles cs ?j [])"
  from assms have k: "cursor st + 1 \<le> k" "k < ?j'"
    by (simp_all add: multi_section_step_header)
  show ?thesis
  proof (cases "k < ?j")
    case True
    with k section_categories_bounds [of "cursor st + 1" cs "[]"]
    have "\<not> stops_categories (strip (cs ! k))" by blast
    with header_stops(1) show ?thesis by blast
  next
    case False
    with k section_percentiles_bounds [of ?j cs "[]"]
    have "\<not> stops_percentiles (strip (cs ! k))" by auto
    with header_stops(2) show ?thesis by blast
  qed
qed

lemma multi_section_loop_total:
  "\<exists>st'. multi_section_loop cs ic iname cc cname st = Some st' \<and>
     opened st' =
       opened st @ filter (\<lambda>k. is_section_header (strip (cs ! k))) [cursor st ..< length cs]"
proof (induction "length cs - cursor st" arbitrary: st rule: less_induct)
  case less
  show ?case
  proof (cases "cursor st < length cs")
    case False
    then show ?thesis
      by (subst multi_section_loop.simps) simp
  next
    case True
    let ?H = "\<lambda>k. is_section_header (strip (cs ! k))"
    let ?st = "multi_section_step cs ic iname cc cname st"
    have c: "cursor st < cursor ?st" "cursor ?st \<le> length cs"
      using multi_section_step_cursor [OF True] by auto
    then have "length cs - cursor ?st < length cs - cursor st"
      using True by arith
    from less [OF this] obtain st' where
      l: "multi_section_loop cs ic iname cc cname ?st = Some st'" and
      o: "opened st' = opened ?st @ filter ?H [cursor ?st ..< length cs]"
      by blast
    have u: "multi_section_loop cs ic iname cc cname st = Some st'"
      using True l by (subst multi_section_loop.simps) simp
    have split: "[cursor st ..< length cs] =
        cursor st # [cursor st + 1 ..< cursor ?st] @ [cursor ?st ..< length cs]"
    proof -
      have "[cursor st ..< length cs] = cursor st # [cursor st + 1 ..< length cs]"
        using True by (simp add: upt_conv_Cons)
      moreover have "[cursor st + 1 ..< length cs] =
          [cursor st + 1 ..< cursor ?st] @ [cursor ?st ..< length cs]"
        using c upt_add_eq_append [of "cursor st + 1" "cursor ?st" "length cs - cursor ?st"]
        by simp
      ultimately show ?thesis by simp
    qed
    have "opened ?st @ filter ?H [cursor ?st ..< length cs] =
        opened st @ filter ?H [cursor st ..< length cs]"
    proof (cases "?H (cursor st)")
      case h: True
      have "filter ?H [cursor st + 1 ..< cursor ?st] = []"
        using multi_section_step_skips_no_header [OF h]
        by (auto simp: filter_empty_conv)
      with h show ?thesis
        by (simp add: split multi_section_step_header(2))
    next
      case h: False
      then have "?st = st\<lparr>cursor := cursor st + 1\<rparr>"
        by (rule multi_section_step_plain)
      with h True show ?thesis
        by (simp add: upt_conv_Cons)
    qed
    with u o show ?thesis by simp
  qed
qed

lemma multi_section_loop_step:
  "cursor st < length cs \<Longrightarrow>
   multi_section_loop cs ic iname cc cname st =
     multi_section_loop cs ic iname cc cname (multi_section_step cs ic iname cc cname st)"
  by (subst multi_section_loop.simps) simp

lemma multi_section_loop_done:
  "\<not> cursor st < length cs \<Longrightarrow> multi_section_loop cs ic iname cc cname st = Some st"
  by (subst multi_section_loop.simps) simp

lemma multi_section_run_total:
  "\<exists>st. multi_section_run cs ic iname cc cname = Some st \<and>
     opened st = filter (\<lambda>k. is_section_header (strip (cs ! k))) [0 ..< length cs]"
  using multi_section_loop_total [of cs ic iname cc cname "\<lparr>cursor = 0, records = [], opened = []\<rparr>"]
  by (simp add: multi_section_run_def)

lemma marker_is_header: "l \<in> set section_markers \<Longrightarrow> is_section_header l"
proof -
  have "contains l l" for l :: string
    unfolding contains_iff by (metis append_Nil append_Nil2)
  then show "l \<in> set section_markers \<Longrightarrow> is_section_header l"
    by (auto simp: section_markers_def is_section_header_def)
qed

text \<open>
  C10. The multi-section parser returns on every course block. In each pass of the outer
  loop the cursor grows: by one when the line at the cursor is not a section header, and
  otherwise to the index at which the second inner loop stops, which is not below the
  index at which the first stops, which is not below the cursor plus one (an inner loop
  never returns an index below the one it starts from).
\<close>

theorem multi_section_terminates:
  "(\<exists>recs. parse_multi_section_course cs ic iname cc cname = Some recs) \<and>
   (\<forall>st. cursor st < length cs \<longrightarrow>
      cursor st < cursor (multi_section_step cs ic iname cc cname st) \<and>
      (\<not> is_section_header (strip (cs ! cursor st)) \<longrightarrow>
         cursor (multi_section_step cs ic iname cc cname st) = cursor st + 1) \<and>
      (is_section_header (strip (cs ! cursor st)) \<longrightarrow>
         cursor (multi_section_step cs ic iname cc cname st) =
           snd (section_percentiles cs (snd (section_categories cs (cursor st + 1) [])) []))) \<and>
   (\<forall>j c. j \<le> snd (section_categories cs j c)) \<and>
   (\<forall>j p. j \<le> snd (section_percentiles cs j p))"
proof -
  have "\<exists>recs. parse_multi_section_course cs ic iname cc cname = Some recs"
    using multi_section_run_total [of cs ic iname cc cname]
    by (auto simp: parse_multi_section_course_def)
  moreover have "\<forall>j c. j \<le> snd (section_categories cs j c)"
    using section_categories_bounds by blast
  moreover have "\<forall>j p. j \<le> snd (section_percentiles cs j p)"
    using section_percentiles_bounds by blast
  ultimately show ?thesis
    by (simp add: multi_section_step_cursor multi_section_step_header(1)
        multi_section_step_plain)
qed

theorem multi_section_terminates_witness:
  "cursor \<lparr>cursor = 0, records = [], opened = []\<rparr> <
     length [''Home University Seats Allotted to Home University'', ''GOPENS'',
       ''I 1 (90.5)'', ''Stage-I''] \<and>
   is_section_header (strip ([''Home University Seats Allotted to Home University'', ''GOPENS'',
       ''I 1 (90.5)'', ''Stage-I''] ! 0)) \<and>
   cursor (multi_section_step
     [''Home University Seats Allotted to Home University'', ''GOPENS'', ''I 1 (90.5)'', ''Stage-I'']
     ''12345'' ''ABC College Of Engineering'' ''1234567890'' ''Computer Engineering''
     \<lparr>cursor = 0, records = [], opened = []\<rparr>) = 3 \<and>
   cursor (multi_section_step
     [''Home University Seats Allotted to Home University'', ''GOPENS'', ''I 1 (90.5)'', ''Stage-I'']
     ''12345'' ''ABC College Of Engineering'' ''1234567890'' ''Computer Engineering''
     \<lparr>cursor = 3, records = [], opened = [0]\<rparr>) = 3 + 1 \<and>
   map_option (map (\<lambda>r. (Category r, Percentile r)))
     (parse_multi_section_course
       [''Home University Seats Allotted to Home University'', ''GOPENS'', ''I 1 (90.5)'', ''Stage-I'']
       ''12345'' ''ABC College Of Engineering'' ''1234567890'' ''Computer Engineering'') =
     Some [(''GOPENS'', Some (py_float ''90.5''))]"
proof -
  let ?cs = "[''Home University Seats Allotted to Home University'', ''GOPENS'',
       ''I 1 (90.5)'', ''Stage-I'']"
  let ?recs = "create_records ''12345'' ''ABC College Of Engineering'' ''1234567890''
      ''Computer Engineering'' [''GOPENS''] [py_float ''90.5'']"
  let ?step = "multi_section_step ?cs ''12345'' ''ABC College Of Engineering'' ''1234567890''
      ''Computer Engineering''"
  have h0: "is_section_header (strip (?cs ! 0))" by code_simp
  have h3: "\<not> is_section_header (strip (?cs ! 3))" by code_simp
  have s0: "?step \<lparr>cursor = 0, records = [], opened = []\<rparr> =
      \<lparr>cursor = 3, records = ?recs, opened = [0]\<rparr>"
    by code_simp
  have s3: "?step \<lparr>cursor = 3, records = ?recs, opened = [0]\<rparr> =
      \<lparr>cursor = 4, records = ?recs, opened = [0]\<rparr>"
    using h3 by (simp add: multi_section_step_plain)
  have run: "multi_section_run ?cs ''12345'' ''ABC College Of Engineering'' ''1234567890''
      ''Computer Engineering'' = Some \<lparr>cursor = 4, records = ?recs, opened = [0]\<rparr>"
    by (simp add: multi_section_run_def multi_section_loop_step multi_section_loop_done s0 s3)
  have p: "map_option (map (\<lambda>r. (Category r, Percentile r)))
     (parse_multi_section_course ?cs ''12345'' ''ABC College Of Engineering'' ''1234567890''
        ''Computer Engineering'') = Some [(''GOPENS'', Some (py_float ''90.5''))]"
    by (simp add: parse_multi_section_course_def run create_records_def enumerate_eq_zip upt_rec)
  have l0: "cursor \<lparr>cursor = 0, records = [], opened = []\<rparr> < length ?cs" by simp
  have l3: "cursor \<lparr>cursor = 3, records = [], opened = [0]\<rparr> < length ?cs" by simp
  from multi_section_terminates [of ?cs "''12345''" "''ABC College Of Engineering''"
      "''1234567890''" "''Computer Engineering''"]
  have "\<forall>st. cursor st < length ?cs \<longrightarrow>
      (\<not> is_section_header (strip (?cs ! cursor st)) \<longrightarrow>
         cursor (?step st) = cursor st + 1)"
    by blast
  from this [rule_format, OF l3] h3
  have c3: "cursor (?step \<lparr>cursor = 3, records = [], opened = [0]\<rparr>) = 3 + 1"
    by simp
  from l0 h0 s0 c3 p show ?thesis by simp
qed


text \<open>
  C2, as stated: a section is opened at a line only if the stripped line is equal to one
  of the four markers. The line below is none of the four and opens a section.
\<close>

theorem substring_opens_section:
  "map_option opened
     (multi_section_run [''Home University Seats Allotted to Home University (contd.)'']
        ''12345'' ''ABC College Of Engineering'' ''1234567890'' ''Computer Engineering'') =
     Some [0] \<and>
   strip ([''Home University Seats Allotted to Home University (contd.)''] ! 0) \<notin>
     set section_markers"
proof -
  let ?cs = "[''Home University Seats Allotted to Home University (contd.)'']"
  have f: "filter (\<lambda>k. is_section_header (strip (?cs ! k))) [0 ..< length ?cs] = [0]"
    by code_simp
  have n: "strip (?cs ! 0) \<notin> set section_markers"
    by code_simp
  from multi_section_run_total [of ?cs "''12345''" "''ABC College Of Engineering''"
      "''1234567890''" "''Computer Engineering''"] f n
  show ?thesis by auto
qed

text \<open>
  C2, amended: the parser opens a section at line \<open>i\<close> exactly when the stripped line
  contains one of the three "Seats Allotted" markers as a substring or is equal to
  "State Level"; in particular at every line equal to one of the four markers, and at no
  line that fails this test.
\<close>

theorem sections_open_at_headers:
  "\<exists>st. multi_section_run cs ic iname cc cname = Some st \<and>
     opened st = filter (\<lambda>i. is_section_header (strip (cs ! i))) [0 ..< length cs] \<and>
     (\<forall>i < length cs. i \<in> set (opened st) \<longleftrightarrow> is_section_header (strip (cs ! i))) \<and>
     (\<forall>i < length cs. strip (cs ! i) \<in> set section_markers \<longrightarrow> i \<in> set (opened st))"
proof -
  from multi_section_run_total [of cs ic iname cc cname] obtain st where
    r: "multi_section_run cs ic iname cc cname = Some st" and
    o: "opened st = filter (\<lambda>i. is_section_header (strip (cs ! i))) [0 ..< length cs]"
    by blast
  have a: "\<forall>i < length cs. i \<in> set (opened st) \<longleftrightarrow> is_section_header (strip (cs ! i))"
    by (simp add: o)
  with marker_is_header
  have "\<forall>i < length cs. strip (cs ! i) \<in> set section_markers \<longrightarrow> i \<in> set (opened st)"
    by blast
  with r o a show ?thesis by blast
qed

theorem sections_open_at_headers_witness:
  "(3 :: nat) < length [''Home University Seats Allotted to Home University'', ''GOPENS'',
       ''I 1 (90.5)'', ''  State Level '', ''GOPENS'', ''I 2 (80.5)'', ''Legends: Stage-I''] \<and>
   strip ([''Home University Seats Allotted to Home University'', ''GOPENS'',
       ''I 1 (90.5)'', ''  State Level '', ''GOPENS'', ''I 2 (80.5)'', ''Legends: Stage-I''] ! 3) \<in>
     set section_markers \<and>
   map_option opened
     (multi_section_run [''Home University Seats Allotted to Home University'', ''GOPENS'',
       ''I 1 (90.5)'', ''  State Level '', ''GOPENS'', ''I 2 (80.5)'', ''Legends: Stage-I'']
        ''12345'' ''ABC College Of Engineering'' ''1234567890'' ''Computer Engineering'') =
     Some [0, 3]"
proof -
  let ?cs = "[''Home University Seats Allotted to Home University'', ''GOPENS'',
       ''I 1 (90.5)'', ''  State Level '', ''GOPENS'', ''I 2 (80.5)'', ''Legends: Stage-I'']"
  have f: "filter (\<lambda>k. is_section_header (strip (?cs ! k))) [0 ..< length ?cs] = [0, 3]"
    by code_simp
  have m: "strip (?cs ! 3) \<in> set section_markers"
    by code_simp
  have l: "(3 :: nat) < length ?cs" by simp
  from sections_open_at_headers [of ?cs "''12345''" "''ABC College Of Engineering''"
      "''1234567890''" "''Computer Engineering''"] f
  have "map_option opened
     (multi_section_run ?cs ''12345'' ''ABC College Of Engineering'' ''1234567890''
        ''Computer Engineering'') = Some [0, 3]"
    by auto
  with l m show ?thesis by blast
qed

section \<open>Course ranges and the final data set\<close>

lemma set_drop_duplicates: "set (drop_duplicates xs) = set xs"
  by (induction xs rule: drop_duplicates.induct) auto

lemma distinct_drop_duplicates: "distinct (drop_duplicates xs)"
  by (induction xs rule: drop_duplicates.induct) (auto simp: set_drop_duplicates)

text \<open>
  The course loop, one line more: the list grows by the header, the dictionary is
  written at its code.
\<close>

lemma find_courses_snoc:
  "find_courses (ls @ [l]) i cs0 pos0 =
     (case find_courses ls i cs0 pos0 of
        (cs, pos) \<Rightarrow>
          if re_match course_rx (strip l)
          then (cs @ [code_and_name (strip l)],
                pos(fst (code_and_name (strip l)) \<mapsto> i + length ls))
          else (cs, pos))"
proof (induction ls arbitrary: i cs0 pos0)
  case Nil
  then show ?case
    by (cases "code_and_name (strip l)") (simp add: Let_def)
next
  case (Cons a ls)
  obtain c n where cn: "code_and_name (strip a) = (c, n)"
    by (cases "code_and_name (strip a)")
  define cs1 where "cs1 = (if re_match course_rx (strip a) then cs0 @ [(c, n)] else cs0)"
  define pos1 where "pos1 = (if re_match course_rx (strip a) then pos0(c \<mapsto> i) else pos0)"
  have a1: "find_courses ((a # ls) @ [l]) i cs0 pos0 = find_courses (ls @ [l]) (Suc i) cs1 pos1"
    by (simp add: cn cs1_def pos1_def)
  have a2: "find_courses (a # ls) i cs0 pos0 = find_courses ls (Suc i) cs1 pos1"
    by (simp add: cn cs1_def pos1_def)
  have a3: "Suc i + length ls = i + length (a # ls)"
    by simp
  show ?case
    unfolding a1 a2 Cons.IH [of "Suc i" cs1 pos1] a3 ..
qed

lemma header_lines_snoc:
  "header_lines (ls @ [l]) =
     header_lines ls @ (if re_match course_rx (strip l) then [length ls] else [])"
proof -
  have "filter (\<lambda>i. re_match course_rx (strip ((ls @ [l]) ! i))) [0 ..< length ls] =
      filter (\<lambda>i. re_match course_rx (strip (ls ! i))) [0 ..< length ls]"
    by (rule filter_cong) (auto simp: nth_append)
  then show ?thesis
    by (simp add: header_lines_def)
qed

lemma header_lines_less: "i \<in> set (header_lines ls) \<Longrightarrow> i < length ls"
  by (simp add: header_lines_def)

lemma header_codes_snoc:
  "header_codes (ls @ [l]) =
     header_codes ls @
       (if re_match course_rx (strip l) then [fst (code_and_name (strip l))] else [])"
proof -
  have "map (\<lambda>i. fst (code_and_name (strip ((ls @ [l]) ! i)))) (header_lines ls) =
      map (\<lambda>i. fst (code_and_name (strip (ls ! i)))) (header_lines ls)"
    by (rule map_cong) (auto simp: nth_append dest: header_lines_less)
  then show ?thesis
    by (simp add: header_codes_def header_lines_snoc)
qed

lemma find_courses_positions:
  assumes "distinct (header_codes lines)"
  shows "map fst (fst (find_courses lines 0 [] Map.empty)) = header_codes lines \<and>
    (\<forall>k < length (header_lines lines).
       snd (find_courses lines 0 [] Map.empty) (header_codes lines ! k) =
         Some (header_lines lines ! k))"
  using assms
proof (induction lines rule: rev_induct)
  case Nil
  then show ?case
    by (simp add: header_codes_def header_lines_def)
next
  case (snoc l ls)
  obtain cs pos where f: "find_courses ls 0 [] Map.empty = (cs, pos)"
    by (cases "find_courses ls 0 [] Map.empty")
  show ?case
  proof (cases "re_match course_rx (strip l)")
    case False
    with snoc f show ?thesis
      by (simp add: find_courses_snoc header_codes_snoc header_lines_snoc)
  next
    case True
    let ?c = "fst (code_and_name (strip l))"
    from snoc.prems True have d: "distinct (header_codes ls)" and n: "?c \<notin> set (header_codes ls)"
      by (simp_all add: header_codes_snoc)
    from snoc.IH [OF d] f have
      c: "map fst cs = header_codes ls" and
      p: "\<forall>k < length (header_lines ls). pos (header_codes ls ! k) = Some (header_lines ls ! k)"
      by simp_all
    have len: "length (header_codes ls) = length (header_lines ls)"
      by (simp add: header_codes_def)
    have "(pos(?c \<mapsto> length ls)) (header_codes (ls @ [l]) ! k) =
        Some (header_lines (ls @ [l]) ! k)"
      if "k < length (header_lines (ls @ [l]))" for k
    proof (cases "k < length (header_lines ls)")
      case k: True
      then have "header_codes ls ! k \<in> set (header_codes ls)"
        by (simp add: len)
      with n have "header_codes ls ! k \<noteq> ?c" by auto
      with k p True show ?thesis
        by (simp add: header_codes_snoc header_lines_snoc nth_append len)
    next
      case k: False
      with that True have "k = length (header_lines ls)"
        by (simp add: header_lines_snoc)
      with True show ?thesis
        by (simp add: header_codes_snoc header_lines_snoc nth_append len)
    qed
    with True f c show ?thesis
      by (simp add: find_courses_snoc header_codes_snoc)
  qed
qed

lemma distinct_codes_ranges:
  assumes "distinct (header_codes lines)"
  shows "page_course_ranges lines = header_to_header lines"
proof -
  obtain cs pos where f: "find_courses lines 0 [] Map.empty = (cs, pos)"
    by (cases "find_courses lines 0 [] Map.empty")
  from find_courses_positions [OF assms] f have
    c: "map fst cs = header_codes lines" and
    p: "\<forall>k < length (header_lines lines).
        pos (header_codes lines ! k) = Some (header_lines lines ! k)"
    by simp_all
  have len: "length cs = length (header_lines lines)"
    using c by (metis header_codes_def length_map)
  have fk: "fst (cs ! k) = header_codes lines ! k" if "k < length cs" for k
    using c that by (metis nth_map)
  have "course_range lines cs pos k =
      Some (header_lines lines ! k,
        if k + 1 < length (header_lines lines) then header_lines lines ! (k + 1)
        else length lines)"
    if "k < length cs" for k
    using that p fk [of k] fk [of "k + 1"] len
    by (simp add: course_range_def)
  then show ?thesis
    by (simp add: page_course_ranges_def f header_to_header_def Let_def len)
qed

text \<open>
  C7. Each course of a page gets the lines from its own header to the line before the
  next course header, or to the end of the page. The page below has seven lines and three
  course headers, at lines 1, 3 and 5, the first and the last with the same course code.
  The ranges that the parser computes are not (1, 3), (3, 5), (5, 7): the dictionary of
  positions keeps one line number for each code, the last, so the first course gets the
  range from 5 to 3, which holds no line, and lines 1 and 2 belong to no course. (When no
  course code comes twice on the page the ranges are the claimed ones, by the lemma
  above.)
\<close>

theorem repeated_course_code_ranges:
  "page_course_ranges
     [''12345 - ABC College Of Engineering'', ''1111111111 - Civil Engineering'', ''a'',
      ''2222222222 - Computer Engineering'', ''b'', ''1111111111 - Civil Engineering'', ''c''] =
     [Some (5, 3), Some (3, 5), Some (5, 7)] \<and>
   slice [''12345 - ABC College Of Engineering'', ''1111111111 - Civil Engineering'', ''a'',
      ''2222222222 - Computer Engineering'', ''b'', ''1111111111 - Civil Engineering'', ''c''] 5 3 = []"
  by code_simp

text \<open>
  C6, as stated: a row comes before another exactly when its three sort columns are
  smaller. In the final data set of the page below the first row comes before the second
  and its columns are not smaller: the two rows differ in the percentile only.
\<close>

theorem equal_columns_in_final_dataset:
  "full_conversion [join_lines
     [''12345 - ABC College Of Engineering'', ''1234567890 - Computer Engineering'',
      ''Home University Seats Allotted to Home University'', ''GOPENS'', ''I 1 (90.5)'',
      ''State Level'', ''GOPENS'', ''I 2 (80.5)'']] =
   Some [\<lparr>Institute_Code = ''12345'', Institute_Name = ''ABC College Of Engineering'',
           Course_Code = ''1234567890'', Course = ''Computer Engineering'',
           Category = ''GOPENS'', Percentile = Some (py_float ''90.5'')\<rparr>,
         \<lparr>Institute_Code = ''12345'', Institute_Name = ''ABC College Of Engineering'',
           Course_Code = ''1234567890'', Course = ''Computer Engineering'',
           Category = ''GOPENS'', Percentile = Some (py_float ''80.5'')\<rparr>] \<and>
   \<not> sort_columns
       \<lparr>Institute_Code = ''12345'', Institute_Name = ''ABC College Of Engineering'',
         Course_Code = ''1234567890'', Course = ''Computer Engineering'',
         Category = ''GOPENS'', Percentile = Some (py_float ''90.5'')\<rparr> <
     sort_columns
       \<lparr>Institute_Code = ''12345'', Institute_Name = ''ABC College Of Engineering'',
         Course_Code = ''1234567890'', Course = ''Computer Engineering'',
         Category = ''GOPENS'', Percentile = Some (py_float ''80.5'')\<rparr>"
proof -
  have "full_conversion [join_lines
     [''12345 - ABC College Of Engineering'', ''1234567890 - Computer Engineering'',
      ''Home University Seats Allotted to Home University'', ''GOPENS'', ''I 1 (90.5)'',
      ''State Level'', ''GOPENS'', ''I 2 (80.5)'']] =
   Some [\<lparr>Institute_Code = ''12345'', Institute_Name = ''ABC College Of Engineering'',
           Course_Code = ''1234567890'', Course = ''Computer Engineering'',
           Category = ''GOPENS'', Percentile = Some (py_float ''90.5'')\<rparr>,
         \<lparr>Institute_Code = ''12345'', Institute_Name = ''ABC College Of Engineering'',
           Course_Code = ''1234567890'', Course = ''Computer Engineering'',
           Category = ''GOPENS'', Percentile = Some (py_float ''80.5'')\<rparr>]"
    by code_simp
  then show ?thesis
    by (simp add: sort_columns_def)
qed

text \<open>
  C6, amended: the rows of the final data set are pairwise different and are those that
  were collected; the sort columns (institute code, course code, category) never decrease
  along the rows: a row that comes before another has columns that are smaller or equal,
  and a row with smaller columns comes before.
\<close>

theorem final_dataset_order:
  assumes "full_conversion pages = Some ds"
  shows "sorted (map sort_columns ds) \<and> distinct ds \<and>
     set ds = set (collect_records pages []) \<and>
     (\<forall>i j. i < j \<and> j < length ds \<longrightarrow> sort_columns (ds ! i) \<le> sort_columns (ds ! j)) \<and>
     (\<forall>i j. i < length ds \<and> j < length ds \<and> sort_columns (ds ! i) < sort_columns (ds ! j) \<longrightarrow>
        i < j)"
proof -
  let ?all = "collect_records pages []"
  from assms have ds: "ds = sort_key sort_columns (drop_duplicates ?all)"
    by (auto simp: full_conversion_def final_dataset_def sort_values_def split: if_splits)
  have d: "distinct ds"
    by (simp add: ds distinct_drop_duplicates)
  have s: "set ds = set ?all"
    by (simp add: ds set_drop_duplicates)
  have so: "sorted (map sort_columns ds)"
    by (simp add: ds sorted_sort_key)
  then have m: "sort_columns (ds ! i) \<le> sort_columns (ds ! j)" if "i \<le> j" "j < length ds" for i j
    using that sorted_nth_mono [of "map sort_columns ds" i j] by simp
  have a: "\<forall>i j. i < j \<and> j < length ds \<longrightarrow> sort_columns (ds ! i) \<le> sort_columns (ds ! j)"
    using m by simp
  have b: "\<forall>i j. i < length ds \<and> j < length ds \<and> sort_columns (ds ! i) < sort_columns (ds ! j) \<longrightarrow>
        i < j"
  proof (intro allI impI)
    fix i j
    assume h: "i < length ds \<and> j < length ds \<and> sort_columns (ds ! i) < sort_columns (ds ! j)"
    show "i < j"
    proof (rule ccontr)
      assume "\<not> i < j"
      then have "j \<le> i" by simp
      with h m [of j i] have "sort_columns (ds ! j) \<le> sort_columns (ds ! i)" by simp
      with h show False by (auto dest: leD)
    qed
  qed
  from so d s a b show ?thesis by blast
qed


theorem final_dataset_order_witness:
  "full_conversion
     [join_lines [''12345 - ABC College Of Engineering'', ''1234567890 - Computer Engineering'',
        ''Home University Seats Allotted to Home University'', ''GSCS GOPENS'',
        ''I 1 (90.5) 2 (80.5)''],
      join_lines [''12345 - ABC College Of Engineering'', ''1234567890 - Computer Engineering'',
        ''Home University Seats Allotted to Home University'', ''GSCS GOPENS'',
        ''I 1 (90.5) 2 (80.5)'']] =
   Some [\<lparr>Institute_Code = ''12345'', Institute_Name = ''ABC College Of Engineering'',
           Course_Code = ''1234567890'', Course = ''Computer Engineering'',
           Category = ''GOPENS'', Percentile = Some (py_float ''80.5'')\<rparr>,
         \<lparr>Institute_Code = ''12345'', Institute_Name = ''ABC College Of Engineering'',
           Course_Code = ''1234567890'', Course = ''Computer Engineering'',
           Category = ''GSCS'', Percentile = Some (py_float ''90.5'')\<rparr>] \<and>
   sorted (map sort_columns
     [\<lparr>Institute_Code = ''12345'', Institute_Name = ''ABC College Of Engineering'',
        Course_Code = ''1234567890'', Course = ''Computer Engineering'',
        Category = ''GOPENS'', Percentile = Some (py_float ''80.5'')\<rparr>,
      \<lparr>Institute_Code = ''12345'', Institute_Name = ''ABC College Of Engineering'',
        Course_Code = ''1234567890'', Course = ''Computer Engineering'',
        Category = ''GSCS'', Percentile = Some (py_float ''90.5'')\<rparr>])"
proof -
  have e: "full_conversion
     [join_lines [''12345 - ABC College Of Engineering'', ''1234567890 - Computer Engineering'',
        ''Home University Seats Allotted to Home University'', ''GSCS GOPENS'',
        ''I 1 (90.5) 2 (80.5)''],
      join_lines [''12345 - ABC College Of Engineering'', ''1234567890 - Computer Engineering'',
        ''Home University Seats Allotted to Home University'', ''GSCS GOPENS'',
        ''I 1 (90.5) 2 (80.5)'']] =
   Some [\<lparr>Institute_Code = ''12345'', Institute_Name = ''ABC College Of Engineering'',
           Course_Code = ''1234567890'', Course = ''Computer Engineering'',
           Category = ''GOPENS'', Percentile = Some (py_float ''80.5'')\<rparr>,
         \<lparr>Institute_Code = ''12345'', Institute_Name = ''ABC College Of Engineering'',
           Course_Code = ''1234567890'', Course = ''Computer Engineering'',
           Category = ''GSCS'', Percentile = Some (py_float ''90.5'')\<rparr>]"
    by code_simp
  from final_dataset_order [OF e] e show ?thesis by blast
qed

end
